theory Spec2Isabelle
  imports Main "HOL-Library.Log_Nat"
begin

section \<open>Status Aggregator: data model\<close>

text \<open>
  The component \<^verbatim>\<open>DocumentProcessingStatus\<close> keeps four pieces of React state
  (\<^verbatim>\<open>documents\<close>, \<^verbatim>\<open>isFormatting\<close>, \<^verbatim>\<open>error\<close>, \<^verbatim>\<open>status\<close>) and reads
  \<^verbatim>\<open>currentUser\<close> from the authentication context. The interface \<^verbatim>\<open>Document\<close> types
  \<^verbatim>\<open>documentType\<close> and \<^verbatim>\<open>status\<close> as plain strings, and so does the model.
  The field \<^verbatim>\<open>id\<close> is called \<open>id_doc\<close> here, because \<open>id\<close> is the identity function of HOL.
\<close>

record Document =
  id_doc :: string
  documentType :: string
  status :: string
  name :: string
  error :: "string option"

text \<open>The object literal \<^verbatim>\<open>documentCounts\<close> and the object literal \<^verbatim>\<open>documentTypeCount\<close>.\<close>

record status_counts =
  uploaded :: nat
  extracted :: nat
  processed :: nat
  error :: nat

record type_counts =
  syllabus :: nat
  transcript :: nat
  grades :: nat

record component_state =
  documents :: "Document list"
  isFormatting :: bool
  error :: "string option"
  status :: string

text \<open>
  What a handler does to the outside world: calling the optional prop
  \<^verbatim>\<open>onProcessingComplete\<close>, invoking a callable cloud function by name with a data object
  (an association list of its fields), and writing to \<^verbatim>\<open>console.error\<close>.
\<close>

datatype effect =
  OnProcessingComplete
| Invoke string "(string \<times> string) list"
| ConsoleError string "string option"

text \<open>The initial values given to \<^verbatim>\<open>useState\<close>.\<close>

definition initial_state :: component_state where
  "initial_state =
     \<lparr>documents = [], isFormatting = False, error = None, status = ''''\<rparr>"

section \<open>The snapshot listener\<close>

text \<open>
  The callback passed to \<^verbatim>\<open>onSnapshot\<close>: it stores the documents of the snapshot and
  calls \<^verbatim>\<open>onProcessingComplete\<close> when the snapshot is non-empty, every document has
  status \<^verbatim>\<open>'processed'\<close> and the prop was given. The first argument says whether the
  prop was given.
\<close>

definition allProcessed :: "Document list \<Rightarrow> bool" where
  "allProcessed docs =
     (length docs > 0 \<and> list_all (\<lambda>d. Document.status d = ''processed'') docs)"

definition snapshot_listener ::
  "bool \<Rightarrow> Document list \<Rightarrow> component_state \<Rightarrow> component_state \<times> effect list" where
  "snapshot_listener onProcessingComplete docs s =
     (s\<lparr>documents := docs\<rparr>,
      if allProcessed docs \<and> onProcessingComplete then [OnProcessingComplete] else [])"

text \<open>A sequence of snapshots delivered one after the other, with the effects in order.\<close>

fun deliver ::
  "bool \<Rightarrow> Document list list \<Rightarrow> component_state \<Rightarrow> component_state \<times> effect list" where
  "deliver cb [] s = (s, [])"
| "deliver cb (snap # rest) s =
     (case snapshot_listener cb snap s of (s1, e1) \<Rightarrow>
        (case deliver cb rest s1 of (s2, e2) \<Rightarrow> (s2, e1 @ e2)))"

definition notifications :: "effect list \<Rightarrow> nat" where
  "notifications es = length (filter (\<lambda>e. e = OnProcessingComplete) es)"

text \<open>
  The specification's count, in its own words: one notification for each snapshot that is
  all-processed while the snapshot before it was not. The first argument is whether the
  prior snapshot was all-processed.
\<close>

fun spec_transitions :: "bool \<Rightarrow> Document list list \<Rightarrow> nat" where
  "spec_transitions prior [] = 0"
| "spec_transitions prior (snap # rest) =
     (if allProcessed snap \<and> \<not> prior then 1 else 0)
       + spec_transitions (allProcessed snap) rest"

section \<open>Derived values\<close>

definition documentCounts :: "component_state \<Rightarrow> status_counts" where
  "documentCounts s =
     \<lparr>uploaded = length (filter (\<lambda>d. Document.status d = ''uploaded'') (documents s)),
      extracted = length (filter (\<lambda>d. Document.status d = ''extracted'') (documents s)),
      processed = length (filter (\<lambda>d. Document.status d = ''processed'') (documents s)),
      error = length (filter (\<lambda>d. Document.status d = ''error'') (documents s))\<rparr>"

definition documentTypeCount :: "component_state \<Rightarrow> type_counts" where
  "documentTypeCount s =
     \<lparr>syllabus = length (filter (\<lambda>d. documentType d = ''syllabus'') (documents s)),
      transcript = length (filter (\<lambda>d. documentType d = ''transcript'') (documents s)),
      grades = length (filter (\<lambda>d. documentType d = ''grades'') (documents s))\<rparr>"

definition hasMinimumDocuments :: "component_state \<Rightarrow> bool" where
  "hasMinimumDocuments s = (syllabus (documentTypeCount s) > 0)"

definition canFormat :: "component_state \<Rightarrow> bool" where
  "canFormat s = (extracted (documentCounts s) > 0 \<and> \<not> isFormatting s)"

text \<open>The sum of the four buckets of \<^verbatim>\<open>documentCounts\<close>.\<close>

definition counts_total :: "status_counts \<Rightarrow> nat" where
  "counts_total c = uploaded c + extracted c + processed c + status_counts.error c"

definition known_status :: "string \<Rightarrow> bool" where
  "known_status st =
     (st = ''uploaded'' \<or> st = ''extracted'' \<or> st = ''processed'' \<or> st = ''error'')"

section \<open>JavaScript numbers\<close>

text \<open>
  A JavaScript number is an IEEE 754 binary64 value. A finite one is a rational, and the
  operators \<^verbatim>\<open>/\<close> and \<^verbatim>\<open>*\<close> return the exact result rounded to the nearest
  value with a 53-bit significand, ties to the even significand. The model covers the
  normal range (no overflow, no subnormals), which holds every value that
  \<^verbatim>\<open>calculateProgress\<close> computes.

  \<open>ilog2 x\<close> is the binary exponent of a positive \<open>x\<close>: the \<open>k\<close> with
  \<open>2 powi k \<le> x < 2 powi (k + 1)\<close>.
\<close>

definition ilog2 :: "rat \<Rightarrow> int" where
  "ilog2 x =
     (case quotient_of x of (a, b) \<Rightarrow>
        let k = bitlen a - bitlen b in if 2 powi k \<le> x then k else k - 1)"

definition round_half_even :: "rat \<Rightarrow> int" where
  "round_half_even x =
     (let f = \<lfloor>x\<rfloor>; r = x - of_int f
      in if r < 1 / 2 then f else if 1 / 2 < r then f + 1
         else if even f then f else f + 1)"

definition fl64 :: "rat \<Rightarrow> rat" where
  "fl64 x =
     (if x = 0 then 0
      else let u = 2 powi (ilog2 \<bar>x\<bar> - 52) in of_int (round_half_even (x / u)) * u)"

definition js_div :: "rat \<Rightarrow> rat \<Rightarrow> rat" where
  "js_div a b = fl64 (a / b)"

definition js_mul :: "rat \<Rightarrow> rat \<Rightarrow> rat" where
  "js_mul a b = fl64 (a * b)"

text \<open>
  \<^verbatim>\<open>Math.round\<close> returns the integer closest to its argument, and of two equally close
  integers the one nearer to plus infinity: the floor of \<open>x + 1/2\<close>, computed exactly.
\<close>

definition Math_round :: "rat \<Rightarrow> int" where
  "Math_round x = \<lfloor>x + 1 / 2\<rfloor>"

section \<open>Overall progress\<close>

text \<open>
  The \<^verbatim>\<open>forEach\<close> loop of \<^verbatim>\<open>calculateProgress\<close> adds one step for every document and
  one more for a document whose status is \<^verbatim>\<open>'extracted'\<close> or \<^verbatim>\<open>'processed'\<close>.
  The counters are integers far below \<open>2^53\<close>, so they are exact as numbers.
\<close>

definition count_steps :: "Document \<Rightarrow> nat \<Rightarrow> nat" where
  "count_steps d completedSteps =
     (if Document.status d = ''extracted'' \<or> Document.status d = ''processed''
      then completedSteps + 1 + 1 else completedSteps + 1)"

definition calculateProgress :: "component_state \<Rightarrow> int" where
  "calculateProgress s =
     (if length (documents s) = 0 then 0
      else let totalSteps = length (documents s) * 2;
               completedSteps = fold count_steps (documents s) 0
           in Math_round (js_mul (js_div (of_nat completedSteps) (of_nat totalSteps)) 100))"

text \<open>
  The specification's formula, in its own words: with \<open>n\<close> records of which \<open>e\<close> are
  extracted or processed, \<open>round (100 * (n + e) / (2 * n))\<close> in exact arithmetic, and 0
  for no record.
\<close>

definition extracted_or_processed :: "Document list \<Rightarrow> nat" where
  "extracted_or_processed docs =
     length (filter (\<lambda>d. Document.status d = ''extracted'' \<or> Document.status d = ''processed'')
               docs)"

definition spec_progressPercent :: "nat \<Rightarrow> nat \<Rightarrow> int" where
  "spec_progressPercent n e =
     (if n = 0 then 0 else round (100 * rat_of_nat (n + e) / rat_of_nat (2 * n)))"

text \<open>Documents and states used as concrete inputs.\<close>

definition doc_with :: "string \<Rightarrow> string \<Rightarrow> string \<Rightarrow> Document" where
  "doc_with i ty st = \<lparr>id_doc = i, documentType = ty, status = st, name = i, error = None\<rparr>"

definition state_with :: "Document list \<Rightarrow> bool \<Rightarrow> component_state" where
  "state_with docs inflight =
     \<lparr>documents = docs, isFormatting = inflight, error = None, status = []\<rparr>"

definition scenario_B :: "Document list" where
  "scenario_B =
     [doc_with ''d1'' ''syllabus'' ''extracted'', doc_with ''d2'' ''transcript'' ''processed'']"

text \<open>Twenty documents with distinct identifiers, the first three of them extracted.\<close>

definition twenty_documents :: "Document list" where
  "twenty_documents =
     map (\<lambda>i. doc_with (replicate (Suc i) CHR ''d'') ''other''
                 (if i < 3 then ''extracted'' else ''uploaded''))
       [0..<20]"

section \<open>The buttons of the view\<close>




section \<open>The action handlers\<close>

text \<open>
  The callable returns an object \<^verbatim>\<open>{ success, message? }\<close> or the call throws an error
  whose \<^verbatim>\<open>message\<close> may be absent. The handlers are asynchronous: each runs up to its
  \<^verbatim>\<open>await\<close> (the \<open>start\<close> part), and continues when the call has settled (the
  \<open>resume\<close> part); other events may run in between.
\<close>

record response =
  success :: bool
  message :: "string option"

datatype call_outcome = Resolved response | Rejected "string option"

text \<open>JavaScript's \<^verbatim>\<open>m || d\<close> on a string that may be undefined: the empty string is falsy.\<close>

definition or_default :: "string option \<Rightarrow> string \<Rightarrow> string" where
  "or_default m d = (case m of None \<Rightarrow> d | Some x \<Rightarrow> if x = [] then d else x)"

definition handleFormatDocuments_start ::
  "string option \<Rightarrow> component_state \<Rightarrow> component_state \<times> effect list" where
  "handleFormatDocuments_start currentUser s =
     (if currentUser = None then (s, [])
      else (s\<lparr>isFormatting := True, error := None, status := ''Formatting documents...''\<rparr>,
            [Invoke ''formatDocumentsData'' []]))"

definition handleFormatDocuments_resume ::
  "call_outcome \<Rightarrow> component_state \<Rightarrow> component_state \<times> effect list" where
  "handleFormatDocuments_resume outcome s =
     (case outcome of
        Resolved r \<Rightarrow>
          ((if success r then s\<lparr>status := ''Documents formatted successfully''\<rparr>
            else s\<lparr>error := Some (or_default (message r) ''Failed to format documents'')\<rparr>)
             \<lparr>isFormatting := False\<rparr>,
           [])
      | Rejected m \<Rightarrow>
          (s\<lparr>error := Some (''Formatting failed: '' @ or_default m ''Unknown error''),
             isFormatting := False\<rparr>,
           [ConsoleError ''Error formatting documents:'' m]))"

text \<open>The whole handler, when nothing else runs between the call and its completion.\<close>

definition handleFormatDocuments ::
  "string option \<Rightarrow> call_outcome \<Rightarrow> component_state \<Rightarrow> component_state \<times> effect list" where
  "handleFormatDocuments currentUser outcome s =
     (if currentUser = None then (s, [])
      else case handleFormatDocuments_start currentUser s of (s1, e1) \<Rightarrow>
        (case handleFormatDocuments_resume outcome s1 of (s2, e2) \<Rightarrow> (s2, e1 @ e2)))"

definition handleRetryProcessing_start ::
  "string option \<Rightarrow> string \<Rightarrow> component_state \<Rightarrow> component_state \<times> effect list" where
  "handleRetryProcessing_start currentUser documentId s =
     (if currentUser = None then (s, [])
      else (s\<lparr>status := ''Retrying processing for document '' @ documentId @ ''...'',
              error := None\<rparr>,
            [Invoke ''formatDocumentsData'' []]))"

definition handleRetryProcessing_resume ::
  "call_outcome \<Rightarrow> component_state \<Rightarrow> component_state \<times> effect list" where
  "handleRetryProcessing_resume outcome s =
     (case outcome of
        Resolved r \<Rightarrow>
          (if success r then s\<lparr>status := ''Document processing initiated successfully''\<rparr>
           else s\<lparr>error := Some (or_default (message r) ''Failed to process document'')\<rparr>,
           [])
      | Rejected m \<Rightarrow>
          (s\<lparr>error := Some (''Processing failed: '' @ or_default m ''Unknown error'')\<rparr>,
           [ConsoleError ''Error processing document:'' m]))"

definition handleRetryProcessing ::
  "string option \<Rightarrow> string \<Rightarrow> call_outcome \<Rightarrow> component_state
     \<Rightarrow> component_state \<times> effect list" where
  "handleRetryProcessing currentUser documentId outcome s =
     (if currentUser = None then (s, [])
      else case handleRetryProcessing_start currentUser documentId s of (s1, e1) \<Rightarrow>
        (case handleRetryProcessing_resume outcome s1 of (s2, e2) \<Rightarrow> (s2, e1 @ e2)))"

text \<open>The calls of cloud functions among the effects of a handler.\<close>

definition invocations :: "effect list \<Rightarrow> effect list" where
  "invocations es = filter (\<lambda>e. case e of Invoke f args \<Rightarrow> True | _ \<Rightarrow> False) es"

section \<open>Access Control Policy\<close>

text \<open>
  The security rules decide a request from its authentication (\<^verbatim>\<open>request.auth\<close>, here
  the uid when there is one), its operation and the path of the document, relative to
  \<^verbatim>\<open>/databases/{database}/documents\<close>. \<^verbatim>\<open>read\<close> stands for the operations get and
  list, \<^verbatim>\<open>write\<close> for create, update and delete. A request is allowed when some
  \<^verbatim>\<open>allow\<close> statement of some \<^verbatim>\<open>match\<close> block that matches the whole path names the
  operation and has a true condition; a block with a false condition grants nothing and
  takes nothing away. The function \<^verbatim>\<open>exists\<close> reads the database, which is the set of
  the paths of the stored documents.
\<close>

datatype operation = GetOp | ListOp | CreateOp | UpdateOp | DeleteOp

definition is_read :: "operation \<Rightarrow> bool" where
  "is_read m = (m = GetOp \<or> m = ListOp)"

definition is_write :: "operation \<Rightarrow> bool" where
  "is_write m = (m = CreateOp \<or> m = UpdateOp \<or> m = DeleteOp)"

record request =
  auth :: "string option"
  operation :: operation
  resource_path :: "string list"

definition isAuthenticated :: "request \<Rightarrow> bool" where
  "isAuthenticated rq = (auth rq \<noteq> None)"

definition isOwner :: "request \<Rightarrow> string \<Rightarrow> bool" where
  "isOwner rq userId = (isAuthenticated rq \<and> auth rq = Some userId)"

definition exists_doc :: "string list set \<Rightarrow> string list \<Rightarrow> bool" where
  "exists_doc db p = (p \<in> db)"

text \<open>\<^verbatim>\<open>match /users/{userId}\<close>, for the profile document itself.\<close>

definition match_users :: "request \<Rightarrow> bool" where
  "match_users rq =
     (case resource_path rq of
        [c, userId] \<Rightarrow>
          c = ''users'' \<and>
          (((is_read (operation rq) \<or> operation rq = UpdateOp) \<and> isOwner rq userId)
           \<or> (operation rq = CreateOp \<and> False)
           \<or> (operation rq = DeleteOp \<and> False))
      | _ \<Rightarrow> False)"

text \<open>
  The four nested blocks \<^verbatim>\<open>documents\<close>, \<^verbatim>\<open>formatted_data\<close>, \<^verbatim>\<open>data\<close> and
  \<^verbatim>\<open>predictions\<close> have the same two statements; the name of the subcollection is the
  first argument.
\<close>

definition match_users_sub :: "string \<Rightarrow> request \<Rightarrow> bool" where
  "match_users_sub sub rq =
     (case resource_path rq of
        [c, userId, c', item] \<Rightarrow>
          c = ''users'' \<and> c' = sub \<and>
          ((is_read (operation rq) \<and> isOwner rq userId)
           \<or> (is_write (operation rq) \<and> False))
      | _ \<Rightarrow> False)"

text \<open>\<^verbatim>\<open>match /courses/{courseId}\<close>; \<^verbatim>\<open>&&\<close> does not evaluate \<^verbatim>\<open>exists\<close> without a uid.\<close>

definition match_courses :: "string list set \<Rightarrow> request \<Rightarrow> bool" where
  "match_courses db rq =
     (case resource_path rq of
        [c, courseId] \<Rightarrow>
          c = ''courses'' \<and>
          ((is_read (operation rq) \<and>
            (isAuthenticated rq \<and>
             (case auth rq of
                None \<Rightarrow> False
              | Some uid \<Rightarrow> exists_doc db [''users'', uid, ''courses'', courseId])))
           \<or> (is_write (operation rq) \<and> False))
      | _ \<Rightarrow> False)"

text \<open>\<^verbatim>\<open>match /{document=**}\<close> matches every path and allows nothing.\<close>

definition match_default :: "request \<Rightarrow> bool" where
  "match_default rq =
     ((is_read (operation rq) \<or> is_write (operation rq)) \<and> False)"

definition authorize :: "string list set \<Rightarrow> request \<Rightarrow> bool" where
  "authorize db rq =
     (match_users rq
      \<or> match_users_sub ''documents'' rq
      \<or> match_users_sub ''formatted_data'' rq
      \<or> match_users_sub ''data'' rq
      \<or> match_users_sub ''predictions'' rq
      \<or> match_courses db rq
      \<or> match_default rq)"

section \<open>Properties of the snapshot listener\<close>

lemma deliver_Cons_effects:
  "snd (deliver cb (snap # rest) s) =
     snd (snapshot_listener cb snap s)
       @ snd (deliver cb rest (fst (snapshot_listener cb snap s)))"
  by (simp split: prod.splits)

lemma notifications_append:
  "notifications (xs @ ys) = notifications xs + notifications ys"
  by (simp add: notifications_def)

lemma notifications_listener:
  "notifications (snd (snapshot_listener cb snap s)) =
     (if allProcessed snap \<and> cb then 1 else 0)"
  by (simp add: notifications_def snapshot_listener_def)

lemma deliver_notifications:
  "notifications (snd (deliver cb snaps s)) =
     (if cb then length (filter allProcessed snaps) else 0)"
proof (induction snaps arbitrary: s)
  case Nil
  show ?case by (simp add: notifications_def)
next
  case (Cons snap rest)
  show ?case
    unfolding deliver_Cons_effects notifications_append notifications_listener Cons.IH
    by simp
qed

lemma spec_transitions_le:
  "spec_transitions prior snaps \<le> length (filter allProcessed snaps)"
proof (induction snaps arbitrary: prior)
  case Nil
  show ?case by simp
next
  case (Cons snap rest)
  have "spec_transitions (allProcessed snap) rest \<le> length (filter allProcessed rest)"
    by (rule Cons.IH)
  then show ?case by (cases "allProcessed snap") auto
qed

text \<open>
  Claim C1, as the code has it. When the prop \<^verbatim>\<open>onProcessingComplete\<close> is given, the
  listener calls it once for every delivered snapshot that is all-processed, whatever the
  snapshot before it was. So every transition from not-all-processed to all-processed is
  notified, and a following snapshot that is still all-processed is notified again.
\<close>

theorem C1_notification_for_each_all_processed_snapshot:
  "notifications (snd (deliver True snaps s)) = length (filter allProcessed snaps)
   \<and> spec_transitions (allProcessed (documents s)) snaps
        \<le> notifications (snd (deliver True snaps s))"
  by (simp add: deliver_notifications spec_transitions_le)

text \<open>
  Claim C1 as stated fails: the same all-processed snapshot delivered twice to the initial
  state is one transition, and the listener notifies twice.
\<close>

theorem C1_counterexample:
  "notifications
     (snd (deliver True
        [[doc_with ''d1'' ''syllabus'' ''processed''],
         [doc_with ''d1'' ''syllabus'' ''processed'']] initial_state)) = 2
   \<and> spec_transitions (allProcessed (documents initial_state))
        [[doc_with ''d1'' ''syllabus'' ''processed''],
         [doc_with ''d1'' ''syllabus'' ''processed'']] = 1"
  unfolding deliver_notifications
  by (simp add: allProcessed_def doc_with_def initial_state_def)

section \<open>Properties of the derived values\<close>

lemma length_filter_known_status:
  "length (filter (\<lambda>d. Document.status d = ''uploaded'') docs)
     + length (filter (\<lambda>d. Document.status d = ''extracted'') docs)
     + length (filter (\<lambda>d. Document.status d = ''processed'') docs)
     + length (filter (\<lambda>d. Document.status d = ''error'') docs)
   = length (filter (\<lambda>d. known_status (Document.status d)) docs)"
  by (induction docs) (auto simp: known_status_def)

lemma counts_total_documentCounts:
  "counts_total (documentCounts s) =
     length (filter (\<lambda>d. known_status (Document.status d)) (documents s))"
  unfolding counts_total_def documentCounts_def
  using length_filter_known_status [of "documents s"] by simp

lemma length_filter_eq_length_iff:
  "(length (filter P xs) = length xs) = list_all P xs"
proof -
  have "length (filter P xs) + length (filter (\<lambda>x. \<not> P x) xs) = length xs"
    by (rule sum_length_filter_compl)
  then have "(length (filter P xs) = length xs) = (filter (\<lambda>x. \<not> P x) xs = [])"
    by auto
  also have "\<dots> = list_all P xs"
    by (simp add: filter_empty_conv list_all_iff)
  finally show ?thesis .
qed

text \<open>
  Claim C6, as the code has it. The four buckets of \<^verbatim>\<open>documentCounts\<close> count the records
  whose status is one of \<^verbatim>\<open>'uploaded'\<close>, \<^verbatim>\<open>'extracted'\<close>, \<^verbatim>\<open>'processed'\<close> and
  \<^verbatim>\<open>'error'\<close>. Their sum is the number of those records; it is at most the number of
  records, and equal to it exactly when every record has one of the four statuses.
\<close>

theorem C6_counts_sum_known_statuses:
  "counts_total (documentCounts s) =
     length (filter (\<lambda>d. known_status (Document.status d)) (documents s))
   \<and> counts_total (documentCounts s) \<le> length (documents s)
   \<and> (counts_total (documentCounts s) = length (documents s))
       = list_all (\<lambda>d. known_status (Document.status d)) (documents s)"
  by (simp add: counts_total_documentCounts length_filter_eq_length_iff)

text \<open>
  Claim C6 as stated fails: \<^verbatim>\<open>status\<close> is any string, and a record whose status is
  none of the four is in no bucket.
\<close>

theorem C6_counterexample:
  "counts_total (documentCounts (state_with [doc_with ''d1'' ''syllabus'' ''queued''] False)) = 0
   \<and> length (documents (state_with [doc_with ''d1'' ''syllabus'' ''queued''] False)) = 1"
  by (simp add: counts_total_def documentCounts_def state_with_def doc_with_def)

lemma progress_of_four_steps:
  "Math_round (js_mul (js_div 4 4) 100) = 100"
  by code_simp

text \<open>
  Claim C5, as the code has it. For the snapshot of a syllabus with status
  \<^verbatim>\<open>'extracted'\<close> and a transcript with status \<^verbatim>\<open>'processed'\<close>, whatever the other
  fields are, and no formatting in flight: both records count two completed steps, so
  \<^verbatim>\<open>calculateProgress\<close> returns 100, and \<^verbatim>\<open>canFormat\<close> is true.
\<close>

theorem C5_scenario_B_progress_100_canFormat:
  "calculateProgress
     \<lparr>documents =
        [\<lparr>id_doc = i1, documentType = ''syllabus'', status = ''extracted'',
          name = n1, error = e1\<rparr>,
         \<lparr>id_doc = i2, documentType = ''transcript'', status = ''processed'',
          name = n2, error = e2\<rparr>],
      isFormatting = False, error = err, status = st\<rparr> = 100
   \<and> canFormat
     \<lparr>documents =
        [\<lparr>id_doc = i1, documentType = ''syllabus'', status = ''extracted'',
          name = n1, error = e1\<rparr>,
         \<lparr>id_doc = i2, documentType = ''transcript'', status = ''processed'',
          name = n2, error = e2\<rparr>],
      isFormatting = False, error = err, status = st\<rparr>"
  by (simp add: calculateProgress_def count_steps_def canFormat_def documentCounts_def
        progress_of_four_steps)

text \<open>Claim C5 as stated fails: the progress of that snapshot is not 75.\<close>

theorem C5_counterexample:
  "calculateProgress (state_with scenario_B False) \<noteq> 75"
  by code_simp

section \<open>Properties of the action handlers\<close>



text \<open>
  Claim C7. When the invocation made by \<^verbatim>\<open>handleFormatDocuments\<close> throws, the handler
  ends in the state it reaches for a response \<^verbatim>\<open>{ success: false, message }\<close> whose
  message is \<^verbatim>\<open>Formatting failed: \<close> followed by the message of the error, or by
  \<^verbatim>\<open>Unknown error\<close> when it has none: that text is the error shown, the in-flight flag
  is cleared, the documents are unchanged, and the listener goes on storing the
  snapshots that follow.
\<close>

theorem C7_thrown_error_is_a_failure_response:
  "fst (handleFormatDocuments (Some u) (Rejected m) s)
     = fst (handleFormatDocuments (Some u)
              (Resolved \<lparr>success = False,
                 message = Some (''Formatting failed: '' @ or_default m ''Unknown error'')\<rparr>) s)
   \<and> component_state.error (fst (handleFormatDocuments (Some u) (Rejected m) s))
       = Some (''Formatting failed: '' @ or_default m ''Unknown error'')
   \<and> isFormatting (fst (handleFormatDocuments (Some u) (Rejected m) s)) = False
   \<and> documents (fst (handleFormatDocuments (Some u) (Rejected m) s)) = documents s
   \<and> documents (fst (deliver cb [snap]
         (fst (handleFormatDocuments (Some u) (Rejected m) s)))) = snap"
  by (simp add: handleFormatDocuments_def handleFormatDocuments_start_def
        handleFormatDocuments_resume_def or_default_def snapshot_listener_def)

text \<open>
  Claim C8. For an authenticated user, \<^verbatim>\<open>handleFormatDocuments\<close> and
  \<^verbatim>\<open>handleRetryProcessing\<close> make the same single invocation, of
  \<^verbatim>\<open>formatDocumentsData\<close> with the empty object, whatever the document identifier given
  to the retry and whatever the outcome of the call; without a user neither makes one.
\<close>

theorem C8_retry_is_whole_batch:
  "invocations (snd (handleRetryProcessing (Some u) documentId outcome s))
     = [Invoke ''formatDocumentsData'' []]
   \<and> invocations (snd (handleFormatDocuments (Some u) outcome s))
     = [Invoke ''formatDocumentsData'' []]
   \<and> invocations (snd (handleRetryProcessing currentUser documentId outcome s))
     = invocations (snd (handleFormatDocuments currentUser outcome s))
   \<and> snd (handleRetryProcessing_start currentUser documentId s)
     = snd (handleFormatDocuments_start currentUser s)"
  by (cases outcome)
     (simp_all add: invocations_def handleRetryProcessing_def handleFormatDocuments_def
        handleRetryProcessing_start_def handleFormatDocuments_start_def
        handleRetryProcessing_resume_def handleFormatDocuments_resume_def)

text \<open>
  Claim C10. Without a current user both handlers return at once: no invocation, no
  other effect, and the state (documents, in-flight flag, error, status) is the one
  they were called in.
\<close>

theorem C10_no_user_no_effect:
  "handleFormatDocuments None outcome s = (s, [])
   \<and> handleRetryProcessing None documentId outcome s = (s, [])
   \<and> handleFormatDocuments_start None s = (s, [])
   \<and> handleRetryProcessing_start None documentId s = (s, [])"
  by (simp add: handleFormatDocuments_def handleRetryProcessing_def
        handleFormatDocuments_start_def handleRetryProcessing_start_def)

section \<open>Properties of the access rules\<close>

lemmas rule_defs =
  authorize_def match_users_def match_users_sub_def match_courses_def match_default_def
  isOwner_def isAuthenticated_def exists_doc_def

text \<open>
  Claim C3. A request on \<^verbatim>\<open>users/A/documents/x\<close> is allowed exactly when it is a read
  (get or list) and the request is authenticated with uid \<open>A\<close>. So the owner may read,
  another principal and an unauthenticated request may not, and nobody may write.
\<close>

theorem C3_user_documents_owner_read_only:
  "authorize db \<lparr>auth = a, operation = m, resource_path = [''users'', A, ''documents'', x]\<rparr>
     = (is_read m \<and> a = Some A)
   \<and> authorize db
         \<lparr>auth = Some A, operation = m, resource_path = [''users'', A, ''documents'', x]\<rparr>
       = is_read m
   \<and> \<not> (is_write m \<and>
          authorize db
            \<lparr>auth = a, operation = m, resource_path = [''users'', A, ''documents'', x]\<rparr>)"
  by (auto simp: rule_defs is_read_def is_write_def)

text \<open>
  Claim C9. A request on \<^verbatim>\<open>courses/c\<close> is allowed exactly when it is a read, the
  request is authenticated, and the document \<^verbatim>\<open>users/uid/courses/c\<close> exists for its
  uid. No write is allowed.
\<close>

theorem C9_courses_enrolled_read_only:
  "authorize db \<lparr>auth = a, operation = m, resource_path = [''courses'', c]\<rparr>
     = (is_read m \<and> (\<exists>uid. a = Some uid \<and> exists_doc db [''users'', uid, ''courses'', c]))
   \<and> \<not> (is_write m \<and>
          authorize db \<lparr>auth = a, operation = m, resource_path = [''courses'', c]\<rparr>)"
  by (auto simp: rule_defs is_read_def is_write_def split: option.splits)

section \<open>Properties of the overall progress\<close>

lemma ilog2_bounds:
  assumes "0 < x"
  shows "2 powi (ilog2 x) \<le> x" and "x < 2 powi (ilog2 x + 1)"
proof -
  obtain a b where q: "quotient_of x = (a, b)" by (cases "quotient_of x")
  have b: "0 < b" using q by (rule quotient_of_denom_pos)
  have x: "x = of_int a / of_int b" using q by (rule quotient_of_div)
  have a: "0 < a" using assms b unfolding x by (simp add: zero_less_divide_iff)
  define la where "la = bitlen a"
  define lb where "lb = bitlen b"
  have la: "2 ^ nat (la - 1) \<le> a" "a < 2 ^ nat la"
    using bitlen_bounds [OF a] by (simp_all add: la_def)
  have lb: "2 ^ nat (lb - 1) \<le> b" "b < 2 ^ nat lb"
    using bitlen_bounds [OF b] by (simp_all add: lb_def)
  have la1: "1 \<le> la" using a bitlen_eq_zero_iff [of a] bitlen_nonneg [of a]
    unfolding la_def by linarith
  have lb1: "1 \<le> lb" using b bitlen_eq_zero_iff [of b] bitlen_nonneg [of b]
    unfolding lb_def by linarith
  have ra: "(2::rat) powi (la - 1) \<le> of_int a" "of_int a < (2::rat) powi la"
  proof -
    have "(of_int (2 ^ nat (la - 1)) :: rat) \<le> of_int a" using la(1) by (simp only: of_int_le_iff)
    then show "(2::rat) powi (la - 1) \<le> of_int a" using la1 by (simp add: power_int_def)
    have "(of_int a :: rat) < of_int (2 ^ nat la)" using la(2) by (simp only: of_int_less_iff)
    then show "of_int a < (2::rat) powi la" using la1 by (simp add: power_int_def)
  qed
  have rb: "(2::rat) powi (lb - 1) \<le> of_int b" "of_int b < (2::rat) powi lb"
  proof -
    have "(of_int (2 ^ nat (lb - 1)) :: rat) \<le> of_int b" using lb(1) by (simp only: of_int_le_iff)
    then show "(2::rat) powi (lb - 1) \<le> of_int b" using lb1 by (simp add: power_int_def)
    have "(of_int b :: rat) < of_int (2 ^ nat lb)" using lb(2) by (simp only: of_int_less_iff)
    then show "of_int b < (2::rat) powi lb" using lb1 by (simp add: power_int_def)
  qed
  have bpos: "(0::rat) < of_int b" using b by simp
  have lower: "(2::rat) powi (la - lb - 1) \<le> x"
  proof -
    have "(2::rat) powi (la - lb - 1) = 2 powi (la - 1) / 2 powi lb"
      by (simp add: power_int_diff [symmetric] algebra_simps)
    also have "\<dots> \<le> of_int a / of_int b"
      using ra(1) rb(2) bpos a by (intro frac_le) (simp_all add: less_imp_le)
    finally show ?thesis by (simp add: x)
  qed
  have upper: "x < (2::rat) powi (la - lb + 1)"
  proof -
    have "of_int a / of_int b < (2::rat) powi la / 2 powi (lb - 1)"
      using ra(2) rb(1) bpos a by (intro frac_less) simp_all
    also have "\<dots> = (2::rat) powi (la - lb + 1)"
      by (simp add: power_int_diff [symmetric] algebra_simps)
    finally show ?thesis by (simp add: x)
  qed
  have il: "ilog2 x = (if 2 powi (la - lb) \<le> x then la - lb else la - lb - 1)"
    by (simp add: ilog2_def q la_def lb_def Let_def)
  show "2 powi (ilog2 x) \<le> x" using lower by (simp add: il)
  show "x < 2 powi (ilog2 x + 1)" using upper by (simp add: il not_le)
qed

lemma round_half_even_error:
  "\<bar>of_int (round_half_even x) - x\<bar> \<le> 1 / 2"
proof -
  have "of_int \<lfloor>x\<rfloor> \<le> x" "x < of_int \<lfloor>x\<rfloor> + 1" by linarith+
  then show ?thesis
    by (auto simp: round_half_even_def Let_def abs_le_iff)
qed

text \<open>
  The rounding keeps a significand of 53 bits: for a positive \<open>x\<close> the result is an
  integer between \<open>2^52\<close> and \<open>2^53\<close> times the unit in the last place of
  \<open>x\<close>.
\<close>

lemma fl64_significand:
  assumes "0 < x"
  shows "fl64 x = of_int (round_half_even (x / 2 powi (ilog2 x - 52))) * 2 powi (ilog2 x - 52)"
    and "2 ^ 52 \<le> round_half_even (x / 2 powi (ilog2 x - 52))"
    and "round_half_even (x / 2 powi (ilog2 x - 52)) \<le> 2 ^ 53"
proof -
  define u :: rat where "u = 2 powi (ilog2 x - 52)"
  define m where "m = round_half_even (x / u)"
  have upos: "0 < u" by (simp add: u_def zero_less_power_int)
  show "fl64 x = of_int (round_half_even (x / 2 powi (ilog2 x - 52))) * 2 powi (ilog2 x - 52)"
    using assms by (simp add: fl64_def Let_def)
  have lo: "2 powi (ilog2 x) = 2 ^ 52 * u" and hi: "2 powi (ilog2 x + 1) = 2 ^ 53 * u"
    by (simp_all add: u_def power_int_diff power_int_add)
  have "2 ^ 52 * u \<le> x" "x < 2 ^ 53 * u"
    using ilog2_bounds [OF assms] by (simp_all only: lo hi)
  then have "2 ^ 52 \<le> x / u" "x / u < 2 ^ 53"
    using upos by (simp_all add: le_divide_eq divide_less_eq)
  moreover define y where "y = x / u"
  ultimately have range: "rat_of_int (2 ^ 52) \<le> y" "y < rat_of_int (2 ^ 53)"
    by simp_all
  have err: "\<bar>of_int m - y\<bar> \<le> 1 / 2"
    unfolding m_def y_def by (rule round_half_even_error)
  have "rat_of_int (2 ^ 52) - 1 / 2 \<le> of_int m" "of_int m < rat_of_int (2 ^ 53) + 1 / 2"
    using range err by linarith+
  then have "2 ^ 52 \<le> m" "m \<le> 2 ^ 53" by linarith+
  then show "2 ^ 52 \<le> round_half_even (x / 2 powi (ilog2 x - 52))"
    and "round_half_even (x / 2 powi (ilog2 x - 52)) \<le> 2 ^ 53"
    by (simp_all add: m_def u_def)
qed

lemma fl64_error:
  assumes "0 < x"
  shows "\<bar>fl64 x - x\<bar> \<le> x / 2 ^ 53"
proof -
  define u :: rat where "u = 2 powi (ilog2 x - 52)"
  have upos: "0 < u" by (simp add: u_def zero_less_power_int)
  have fl: "fl64 x = of_int (round_half_even (x / u)) * u"
    using assms by (simp add: fl64_def u_def Let_def)
  have "fl64 x - x = (of_int (round_half_even (x / u)) - x / u) * u"
    using upos by (simp add: fl left_diff_distrib)
  then have "\<bar>fl64 x - x\<bar> = \<bar>of_int (round_half_even (x / u)) - x / u\<bar> * u"
    using upos by (simp add: abs_mult)
  also have "\<dots> \<le> (1 / 2) * u"
    using round_half_even_error [of "x / u"] upos by (intro mult_right_mono) simp_all
  also have "\<dots> = 2 powi (ilog2 x) / 2 ^ 53"
    by (simp add: u_def power_int_diff)
  also have "\<dots> \<le> x / 2 ^ 53"
    using ilog2_bounds(1) [OF assms] by (simp add: divide_right_mono)
  finally show ?thesis .
qed

lemma progress_value_close:
  assumes "0 < n" "e \<le> n"
  shows "\<bar>js_mul (js_div (of_nat (n + e)) (of_nat (2 * n))) 100
           - 100 * of_nat (n + e) / of_nat (2 * n)\<bar> \<le> 201 / 2 ^ 53"
proof -
  define q :: rat where "q = of_nat (n + e) / of_nat (2 * n)"
  define eps :: rat where "eps = 1 / 2 ^ 53"
  have eps: "0 < eps" "eps \<le> 1 / 100" by (simp_all add: eps_def)
  have qpos: "0 < q" using assms by (simp add: q_def)
  have qle: "q \<le> 1" using assms by (simp add: q_def)
  have rel: "x / 2 ^ 53 = x * eps" for x :: rat by (simp add: eps_def)
  define d where "d = fl64 q"
  have d: "\<bar>d - q\<bar> \<le> q * eps"
    using fl64_error [OF qpos] by (simp only: d_def rel)
  have "q * eps \<le> 1 * eps" using qle eps(1) by (intro mult_right_mono) simp_all
  with d have dq: "\<bar>d - q\<bar> \<le> eps" by simp
  have "q * eps < q * 1" using qpos eps by (intro mult_strict_left_mono) simp_all
  with d have dpos: "0 < d" by linarith
  define p where "p = d * 100"
  have ppos: "0 < p" using dpos by (simp add: p_def)
  have p: "\<bar>fl64 p - p\<bar> \<le> p * eps"
    using fl64_error [OF ppos] by (simp only: rel)
  have ple: "p \<le> 101" using dq qle eps unfolding p_def by linarith
  have "p * eps \<le> 101 * eps" using ple eps(1) by (intro mult_right_mono) simp_all
  with p have p': "\<bar>fl64 p - p\<bar> \<le> 101 * eps" by linarith
  have pq: "\<bar>p - 100 * q\<bar> \<le> 100 * eps"
    using dq unfolding p_def by linarith
  have "\<bar>fl64 p - 100 * q\<bar> \<le> 201 * eps" using p' pq by linarith
  then show ?thesis
    by (simp add: js_mul_def js_div_def p_def d_def q_def eps_def)
qed

lemma floor_near_quotient:
  fixes N D :: int and y :: rat
  assumes D: "0 < D" and y: "\<bar>y - of_int N / of_int D\<bar> < 1 / of_int D"
  shows "\<lfloor>y\<rfloor> = N div D \<or> (D dvd N \<and> \<lfloor>y\<rfloor> = N div D - 1)"
proof -
  define R where "R = N div D"
  define r where "r = N mod D"
  define h :: rat where "h = 1 / of_int D"
  have r: "0 \<le> r" "r < D" using D by (simp_all add: r_def)
  have N: "N = D * R + r" by (simp add: R_def r_def)
  have Dq: "(0::rat) < of_int D" using D by simp
  have quot: "of_int N / of_int D = (of_int R :: rat) + of_int r * h"
    using Dq by (simp add: N add_divide_distrib h_def)
  have h: "0 < h" "h \<le> 1" "of_int D * h = 1" using D by (simp_all add: h_def)
  have near: "of_int R + of_int r * h - h < y" "y < of_int R + of_int r * h + h"
    using y unfolding quot h_def [symmetric] by linarith+
  show ?thesis
  proof (cases "r = 0")
    case True
    then have "D dvd N" by (simp add: N)
    moreover have "of_int (R - 1) \<le> y" "y < of_int R + 1"
      using near h True by simp_all
    then have "\<lfloor>y\<rfloor> = R \<or> \<lfloor>y\<rfloor> = R - 1" by linarith
    ultimately show ?thesis by (auto simp: R_def)
  next
    case False
    with r have r1: "1 \<le> r" "r + 1 \<le> D" by simp_all
    have "1 * h \<le> of_int r * h"
      using r1(1) h(1) by (intro mult_right_mono) simp_all
    moreover have "of_int (r + 1) * h \<le> of_int D * h"
      using r1(2) h(1) by (intro mult_right_mono) (simp_all only: of_int_le_iff less_imp_le)
    then have "of_int r * h + h \<le> 1"
      unfolding h(3) by (simp add: distrib_right)
    ultimately have "of_int R \<le> y" "y < of_int R + 1"
      using near by linarith+
    then have "\<lfloor>y\<rfloor> = R" by linarith
    then show ?thesis by (simp add: R_def)
  qed
qed

lemma fold_count_steps:
  "fold count_steps docs k = k + length docs + extracted_or_processed docs"
  by (induction docs arbitrary: k) (simp_all add: count_steps_def extracted_or_processed_def)

lemma extracted_or_processed_le:
  "extracted_or_processed docs \<le> length docs"
  by (simp add: extracted_or_processed_def)

text \<open>
  Claim C4, as the code has it. \<^verbatim>\<open>calculateProgress\<close> divides and multiplies in binary64
  and rounds the product: for fewer than \<open>2^32\<close> records (the bound of an array's length)
  the result is \<open>round (100 * (n + e) / (2 * n))\<close>, and 0 for no record, except that it
  may be one less when \<open>100 * (n + e) / (2 * n)\<close> lies exactly halfway between two
  integers, which is when \<open>2 * n\<close> divides \<open>101 * n + 100 * e\<close>.
\<close>

theorem C4_progress_is_formula_or_one_less_at_a_half:
  assumes "length (documents s) < 2 ^ 32"
  shows "calculateProgress s
           = spec_progressPercent (length (documents s)) (extracted_or_processed (documents s))
         \<or> (0 < length (documents s)
            \<and> 2 * length (documents s)
                dvd 101 * length (documents s) + 100 * extracted_or_processed (documents s)
            \<and> calculateProgress s
                = spec_progressPercent (length (documents s))
                    (extracted_or_processed (documents s)) - 1)"
proof (cases "length (documents s) = 0")
  case True
  then show ?thesis by (simp add: calculateProgress_def spec_progressPercent_def)
next
  case False
  define n where "n = length (documents s)"
  define e where "e = extracted_or_processed (documents s)"
  define v where "v = js_mul (js_div (of_nat (n + e)) (of_nat (2 * n))) 100"
  define N :: int where "N = int (101 * n + 100 * e)"
  define D :: int where "D = int (2 * n)"
  have n: "0 < n" "n < 2 ^ 32" using False assms by (simp_all add: n_def)
  have e: "e \<le> n" unfolding e_def n_def by (rule extracted_or_processed_le)
  have D: "0 < D" using n by (simp add: D_def)
  have prog: "calculateProgress s = \<lfloor>v + 1 / 2\<rfloor>"
    using False
    by (simp add: calculateProgress_def Math_round_def fold_count_steps Let_def
          v_def n_def e_def mult.commute)
  have exact: "of_int N / of_int D = 100 * rat_of_nat (n + e) / rat_of_nat (2 * n) + 1 / 2"
    using n(1) by (simp add: N_def D_def field_simps)
  have spec: "spec_progressPercent n e = N div D"
  proof -
    have "spec_progressPercent n e = \<lfloor>rat_of_int N / rat_of_int D\<rfloor>"
      using n(1) by (simp only: exact) (simp add: spec_progressPercent_def round_def)
    then show ?thesis by (simp only: floor_divide_of_int_eq)
  qed
  have "\<bar>(v + 1 / 2) - of_int N / of_int D\<bar> \<le> 201 / 2 ^ 53"
    using progress_value_close [OF n(1) e] by (simp only: exact v_def)
  also have "201 / 2 ^ 53 < 1 / (2 ^ 33 :: rat)" by simp
  also have "1 / (2 ^ 33 :: rat) \<le> 1 / of_int D"
  proof -
    have "D \<le> 2 ^ 33" using n(2) by (simp add: D_def)
    then have "rat_of_int D \<le> of_int (2 ^ 33)" by (simp only: of_int_le_iff)
    then have "rat_of_int D \<le> 2 ^ 33" by simp
    with D show ?thesis by (intro divide_left_mono) simp_all
  qed
  finally have "\<lfloor>v + 1 / 2\<rfloor> = N div D \<or> (D dvd N \<and> \<lfloor>v + 1 / 2\<rfloor> = N div D - 1)"
    by (rule floor_near_quotient [OF D])
  moreover have "D dvd N = (2 * n dvd 101 * n + 100 * e)"
    unfolding D_def N_def by (rule int_dvd_int_iff)
  ultimately show ?thesis
    using n(1) unfolding prog spec [symmetric] n_def [symmetric] e_def [symmetric] by blast
qed

theorem C4_progress_is_formula_or_one_less_at_a_half_witness:
  "length (documents (state_with twenty_documents False)) < 2 ^ 32
   \<and> (calculateProgress (state_with twenty_documents False)
        = spec_progressPercent (length (documents (state_with twenty_documents False)))
            (extracted_or_processed (documents (state_with twenty_documents False)))
      \<or> (0 < length (documents (state_with twenty_documents False))
         \<and> 2 * length (documents (state_with twenty_documents False))
             dvd 101 * length (documents (state_with twenty_documents False))
                 + 100 * extracted_or_processed (documents (state_with twenty_documents False))
         \<and> calculateProgress (state_with twenty_documents False)
             = spec_progressPercent (length (documents (state_with twenty_documents False)))
                 (extracted_or_processed (documents (state_with twenty_documents False))) - 1))"
proof -
  have h: "length (documents (state_with twenty_documents False)) < 2 ^ 32"
    by (simp add: state_with_def twenty_documents_def)
  show ?thesis
    using h C4_progress_is_formula_or_one_less_at_a_half [OF h] by (rule conjI)
qed

text \<open>
  Claim C4 as stated fails: for twenty records of which three are extracted, the quotient
  23 / 40 rounds to a binary64 value whose product with 100 is just below 57.5, and
  \<^verbatim>\<open>calculateProgress\<close> returns 57, while \<open>round (100 * 23 / 40)\<close> is 58.
\<close>

theorem C4_counterexample:
  "calculateProgress (state_with twenty_documents False) = 57
   \<and> spec_progressPercent (length twenty_documents) (extracted_or_processed twenty_documents)
       = 58"
  by code_simp

end
